theory Spec2Isabelle
  imports Main "HOL-Library.Multiset"
begin

section \<open>JavaScript strings\<close>

text \<open>
  A JavaScript string is modelled as the list of its code units, a \<open>string\<close>. The
  type \<open>char\<close> covers the code units U+0000 to U+00FF; the members of ECMAScript's
  WhiteSpace and LineTerminator productions in that range are TAB, LF, VT, FF, CR, SP
  and NBSP. \<open>String.prototype.trim\<close> removes them from both ends. A string is truthy
  exactly when it is not empty.
\<close>

definition isWhiteSpace :: "char \<Rightarrow> bool" where
  "isWhiteSpace c \<longleftrightarrow>
     c = CHR 0x09 \<or> c = CHR 0x0A \<or> c = CHR 0x0B \<or> c = CHR 0x0C \<or> c = CHR 0x0D \<or>
     c = CHR 0x20 \<or> c = CHR 0xA0"

definition trim :: "string \<Rightarrow> string" where
  "trim s = rev (dropWhile isWhiteSpace (rev (dropWhile isWhiteSpace s)))"

definition truthy :: "string \<Rightarrow> bool" where
  "truthy s \<longleftrightarrow> s \<noteq> []"

definition blank :: "string \<Rightarrow> bool" where
  "blank s \<longleftrightarrow> list_all isWhiteSpace s"

section \<open>Shared types (ClientTypes.tsx)\<close>

text \<open>
  The fields named \<open>id\<close>, \<open>uuid\<close> and \<open>username\<close> occur in several types of the
  source; each record prefixes them with its own name. An object of type \<open>{}\<close> is an
  association list. \<open>ProfileData\<close> is a \<open>MinecraftProfile\<close> as it arrives from a
  command, where \<open>skins\<close> and \<open>capes\<close> may be undefined.
\<close>

type_synonym cosmetics = "(string \<times> string) list"

record ClientEntry =
  client_id :: string
  client_username :: string
  auth :: bool
  client_uuid :: "string option"
  instance_count :: nat

record MinecraftProfile =
  profile_uuid :: string
  profile_username :: string
  skins :: cosmetics
  capes :: cosmetics

record ProfileData =
  data_uuid :: string
  data_username :: string
  data_skins :: "cosmetics option"
  data_capes :: "cosmetics option"

record ServerEntry =
  name :: string
  ip :: string
  port :: int

definition asPreviewEntry :: "MinecraftProfile \<Rightarrow> string \<Rightarrow> ClientEntry" where
  "asPreviewEntry p i =
     \<lparr>client_id = i, client_username = profile_username p, auth = True,
      client_uuid = Some (profile_uuid p), instance_count = 0\<rparr>"

section \<open>The command surface\<close>

text \<open>
  Every call \<open>invoke(name, args)\<close> of the interface is a value of \<open>command\<close>: the
  constructor is the command's name, its arguments are the fields of the argument
  object in the order the source writes them. The commands' implementations are not
  part of the interface: a handler takes the replies as a parameter (\<open>Backend\<close>), one
  function per command, \<open>Inl e\<close> for a promise rejected with \<open>e\<close> and \<open>Inr v\<close> for one
  fulfilled with \<open>v\<close>.
\<close>

datatype command =
    auth_offline string
  | auth_ms_finish string bool
  | auth_ms_cache string
  | auth_ms_init string
  | recall_authentication string
  | get_instances string
  | create_connection string string string
  | send_chat string string string
  | add_server string string int

record Credentials =
  uri :: string
  code :: string

type_synonym authReply = "string + string \<times> ProfileData"

record Backend =
  reply_auth_offline :: "string \<Rightarrow> authReply"
  reply_auth_ms_finish :: "string \<Rightarrow> bool \<Rightarrow> authReply"
  reply_auth_ms_cache :: "string \<Rightarrow> authReply"
  reply_auth_ms_init :: "string \<Rightarrow> string + Credentials"
  reply_recall_authentication :: "string \<Rightarrow> string + bool"
  reply_create_connection :: "string \<Rightarrow> string \<Rightarrow> string \<Rightarrow> string + string"
  reply_send_chat :: "string \<Rightarrow> string \<Rightarrow> string \<Rightarrow> string + unit"
  reply_add_server :: "string \<Rightarrow> string \<Rightarrow> int \<Rightarrow> string + unit"

section \<open>The authentication dialog (Auth.tsx)\<close>

datatype authType = microsoft | offline

record Label =
  label_type :: string
  label_message :: string

record AuthState =
  authType :: authType
  loginKey :: string
  isAuthenticating :: bool
  credentials :: Credentials
  label :: Label

text \<open>The three wrappers of \<open>invoke\<close>: the command issued and the reply awaited.\<close>

definition offlineAuth :: "Backend \<Rightarrow> string \<Rightarrow> command \<times> authReply" where
  "offlineAuth be username = (auth_offline username, reply_auth_offline be username)"

definition finishAuth :: "Backend \<Rightarrow> string \<Rightarrow> command \<times> authReply" where
  "finishAuth be key = (auth_ms_finish key True, reply_auth_ms_finish be key True)"

definition cachedAuth :: "Backend \<Rightarrow> string \<Rightarrow> command \<times> authReply" where
  "cachedAuth be key = (auth_ms_cache key, reply_auth_ms_cache be key)"

definition newProfile :: "ProfileData \<Rightarrow> MinecraftProfile" where
  "newProfile profileData =
     \<lparr>profile_uuid = data_uuid profileData,
      profile_username = data_username profileData,
      skins = (case data_skins profileData of None \<Rightarrow> [] | Some x \<Rightarrow> x),
      capes = (case data_capes profileData of None \<Rightarrow> [] | Some x \<Rightarrow> x)\<rparr>"

text \<open>
  A handler returns the commands it invoked, in order, the state once every promise
  it started has settled, and the argument of \<open>onFinish\<close> when it called it.
\<close>

type_synonym authOutcome = "command list \<times> AuthState \<times> (string \<times> MinecraftProfile) option"

definition completeAuth ::
  "string \<times> ProfileData \<Rightarrow> AuthState \<Rightarrow> AuthState \<times> (string \<times> MinecraftProfile)" where
  "completeAuth result st =
     (let profile = newProfile (snd result) in
      (st\<lparr>label := \<lparr>label_type = ''success'',
                      label_message = ''Authentication successful, '' @ profile_username profile\<rparr>\<rparr>,
       (fst result, profile)))"

text \<open>
  \<open>handleAuthenticate\<close>. On the Microsoft path the promise of \<open>cachedAuth\<close> is not
  awaited: the \<open>finally\<close> block resets \<open>isAuthenticating\<close> before the promise
  settles, and a rejection inside the chain never reaches the enclosing \<open>catch\<close>. On
  the offline path the promise is awaited, so a rejection sets the error label.
  \<open>completeAuth\<close> and the callback \<open>onFinish\<close> are taken not to throw.
\<close>

definition handleAuthenticate :: "Backend \<Rightarrow> AuthState \<Rightarrow> authOutcome" where
  "handleAuthenticate be st =
     (if \<not> truthy (trim (loginKey st)) then
        ([], st\<lparr>label := \<lparr>label_type = ''error'',
                           label_message = ''Please enter '' @
                             (if authType st = microsoft then ''an email'' else ''a username'')\<rparr>\<rparr>,
         None)
      else
        let st1 = st\<lparr>label := (label st)\<lparr>label_message := ''''\<rparr>, isAuthenticating := True\<rparr> in
        (if authType st = microsoft then
           let st2 = st1\<lparr>isAuthenticating := False\<rparr>;
               (c1, r1) = cachedAuth be (loginKey st) in
           (case r1 of
              Inr result \<Rightarrow>
                (let (st3, fin) = completeAuth result st2 in ([c1], st3, Some fin))
            | Inl e \<Rightarrow>
                (case reply_auth_ms_init be (loginKey st) of
                   Inr c \<Rightarrow>
                     ([c1, auth_ms_init (loginKey st)],
                      st2\<lparr>credentials := \<lparr>uri = uri c, code = code c\<rparr>\<rparr>, None)
                 | Inl e' \<Rightarrow> ([c1, auth_ms_init (loginKey st)], st2, None)))
         else
           let (c1, r1) = offlineAuth be (loginKey st) in
           (case r1 of
              Inr result \<Rightarrow>
                (let (st3, fin) = completeAuth result st1 in
                 ([c1], st3\<lparr>isAuthenticating := False\<rparr>, Some fin))
            | Inl e \<Rightarrow>
                ([c1],
                 st1\<lparr>label := \<lparr>label_type = ''error'',
                                   label_message = ''Authentication failed: '' @ e\<rparr>,
                     isAuthenticating := False\<rparr>,
                 None))))"

text \<open>
  \<open>finalizeAuthentication\<close>. The promise of \<open>finishAuth\<close> is not awaited either: a
  rejection is rethrown inside the chain and changes nothing.
\<close>

definition finalizeAuthentication :: "Backend \<Rightarrow> AuthState \<Rightarrow> authOutcome" where
  "finalizeAuthentication be st =
     (let (c1, r1) = finishAuth be (loginKey st) in
      (case r1 of
         Inr result \<Rightarrow> (let (st', fin) = completeAuth result st in ([c1], st', Some fin))
       | Inl e \<Rightarrow> ([c1], st, None)))"

text \<open>
  The events of the dialog: the two radio buttons, the text input, the
  \<open>Authenticate\<close> button (disabled while \<open>isAuthenticating\<close>), the \<open>Proceed\<close> button
  (rendered only when \<open>credentials.uri\<close> is truthy and the type is Microsoft) and the
  listener of \<open>auth-progress-update\<close>. Each event comes with the replies the
  commands get while it is handled.
\<close>

datatype authEvent =
    SetAuthType authType
  | SetLoginKey string
  | Authenticate
  | Proceed
  | AuthProgress string string

fun authStep :: "Backend \<Rightarrow> AuthState \<Rightarrow> authEvent \<Rightarrow> authOutcome" where
  "authStep be st (SetAuthType t) = ([], st\<lparr>authType := t\<rparr>, None)"
| "authStep be st (SetLoginKey k) = ([], st\<lparr>loginKey := k\<rparr>, None)"
| "authStep be st Authenticate =
     (if isAuthenticating st then ([], st, None) else handleAuthenticate be st)"
| "authStep be st Proceed =
     (if truthy (uri (credentials st)) \<and> authType st = microsoft
      then finalizeAuthentication be st else ([], st, None))"
| "authStep be st (AuthProgress s m) =
     ([], st\<lparr>label := \<lparr>label_type = s, label_message = m\<rparr>\<rparr>, None)"

fun authRun :: "AuthState \<Rightarrow> (Backend \<times> authEvent) list \<Rightarrow> command list \<times> AuthState" where
  "authRun st [] = ([], st)"
| "authRun st ((be, ev) # evs) =
     (let (cs, st', fin) = authStep be st ev;
          (cs', st'') = authRun st' evs
      in (cs @ cs', st''))"

definition initialAuthState :: AuthState where
  "initialAuthState =
     \<lparr>authType = microsoft, loginKey = '''', isAuthenticating = False,
      credentials = \<lparr>uri = '''', code = ''''\<rparr>,
      label = \<lparr>label_type = '''', label_message = ''''\<rparr>\<rparr>"

section \<open>The client page (ClientManager.tsx)\<close>

record BackendClientConnection =
  bcc_id :: string
  bcc_server :: ServerEntry
  bcc_version :: string

record Connection =
  conn_id :: string
  conn_server :: string
  conn_version :: string
  connected :: bool


record Allowed =
  allowed_value :: bool
  allowed_error :: "string option"

text \<open>
  The state of the component: one field per \<open>useState\<close>, in the order of the source.
  \<open>errLabel\<close> is \<open>None\<close> for \<open>null\<close>. The listeners the page registers are numbered in
  the order of the calls of \<open>listen\<close>. \<open>connectionListener\<close> is the \<open>useRef\<close>: \<open>None\<close>
  while it is undefined, and the number of the listener whose \<open>unlisten\<close> function it
  holds otherwise. The last three fields are the state of the event framework:
  \<open>listeners\<close> are the callbacks registered at present, each with its number and the
  channel it is registered on, in the order of registration; \<open>unsettled\<close> are the
  listeners whose promise of \<open>listen\<close> has not settled yet; \<open>nextListener\<close> is the number
  the next listener gets.
\<close>

record ManagerState =
  allowed :: Allowed
  loading :: bool
  showAuth :: bool
  client :: "ClientEntry option"
  connections :: "Connection list"
  expandedConnection :: int
  chatHistory :: "string \<rightharpoonup> string list"
  chatMessage :: string
  versions :: "string list"
  servers :: "string list"
  showNewDialog :: bool
  selectedServer :: string
  selectedVersion :: string
  errLabel :: "string option"
  connectionListener :: "nat option"
  listeners :: "(nat \<times> string) list"
  unsettled :: "nat list"
  nextListener :: nat

definition initialManagerState :: ManagerState where
  "initialManagerState =
     \<lparr>allowed = \<lparr>allowed_value = True, allowed_error = None\<rparr>, loading = True,
      showAuth = False, client = None, connections = [], expandedConnection = -1,
      chatHistory = Map.empty, chatMessage = '''', versions = [], servers = [],
      showNewDialog = False, selectedServer = '''', selectedVersion = '''',
      errLabel = None, connectionListener = None, listeners = [], unsettled = [],
      nextListener = 0\<rparr>"

subsection \<open>Sending a chat message\<close>

text \<open>
  \<open>sendChatMessage\<close>. The guard \<open>!allowed\<close> tests the object \<open>allowed\<close>, which is always
  truthy, so only \<open>!client\<close> can return early. The test is on the state \<open>chatMessage\<close>,
  the command carries the parameter \<open>message\<close>, untrimmed.
\<close>

definition sendChatMessage ::
  "Backend \<Rightarrow> ManagerState \<Rightarrow> Connection \<Rightarrow> string \<Rightarrow> command list \<times> ManagerState" where
  "sendChatMessage be st connection message =
     (case client st of
        None \<Rightarrow> ([], st)
      | Some c \<Rightarrow>
          if truthy (trim (chatMessage st)) then
            (case reply_send_chat be (client_id c) (conn_id connection) message of
               Inr u \<Rightarrow>
                 ([send_chat (client_id c) (conn_id connection) message],
                  st\<lparr>chatMessage := '''', errLabel := Some ''''\<rparr>)
             | Inl e \<Rightarrow>
                 ([send_chat (client_id c) (conn_id connection) message],
                  st\<lparr>errLabel := Some e\<rparr>))
          else ([], st))"

text \<open>The two places that call it: \<open>onKeyDown\<close> of the input and \<open>onClick\<close> of \<open>Send\<close>.\<close>

definition chatKeyDown ::
  "Backend \<Rightarrow> ManagerState \<Rightarrow> Connection \<Rightarrow> string \<Rightarrow> command list \<times> ManagerState" where
  "chatKeyDown be st connection key =
     (if key = ''Enter'' \<and> truthy (trim (chatMessage st))
      then sendChatMessage be st connection (chatMessage st) else ([], st))"

definition sendClick ::
  "Backend \<Rightarrow> ManagerState \<Rightarrow> Connection \<Rightarrow> command list \<times> ManagerState" where
  "sendClick be st connection =
     (if truthy (trim (chatMessage st))
      then sendChatMessage be st connection (chatMessage st) else ([], st))"

subsection \<open>The chat history\<close>



text \<open>
  \<open>unlisten i\<close> is the function the promise of the listener \<open>i\<close> settles with: it
  removes the callback of that listener, and does nothing when it is no longer
  registered.
\<close>

definition unlisten :: "nat \<Rightarrow> ManagerState \<Rightarrow> ManagerState" where
  "unlisten i st = st\<lparr>listeners := filter (\<lambda>l. fst l \<noteq> i) (listeners st)\<rparr>"

text \<open>
  A click on the header of the connection at \<open>index\<close>. When the ref holds an
  \<open>unlisten\<close> function it is called. The connection is expanded, or collapsed when it
  was the expanded one. When it is expanded the error label is emptied and \<open>listen\<close> is
  called on the channel named by the connection's id: the callback is registered, and
  the promise is left to settle.
\<close>

definition toggleConnection :: "nat \<Rightarrow> Connection \<Rightarrow> ManagerState \<Rightarrow> ManagerState" where
  "toggleConnection index connection st =
     (let st1 = (case connectionListener st of None \<Rightarrow> st | Some i \<Rightarrow> unlisten i st);
          newConnection = (if expandedConnection st = int index then - 1 else int index);
          st2 = st1\<lparr>expandedConnection := newConnection\<rparr> in
      if newConnection \<noteq> - 1 then
        st2\<lparr>errLabel := Some '''',
            listeners := listeners st1 @ [(nextListener st, conn_id connection)],
            unsettled := unsettled st @ [nextListener st],
            nextListener := nextListener st + 1\<rparr>
      else st2)"



subsection \<open>Recalling the authentication\<close>

text \<open>
  \<open>pollStatus\<close> invokes \<open>get_instances\<close> when the client is known; its reply is handled
  by \<open>pollResponse\<close> below. The layout effect invokes \<open>recall_authentication\<close> with the
  id of the route, polls, and stores the reply of \<open>recall_authentication\<close> in
  \<open>allowed\<close>. When \<open>allowed.value\<close> is false the page shows the failure panel, whose
  only control is \<open>Re-authenticate\<close>; it opens the authentication dialog.
\<close>

definition pollStatus :: "ManagerState \<Rightarrow> command list" where
  "pollStatus st = (case client st of None \<Rightarrow> [] | Some c \<Rightarrow> [get_instances (client_id c)])"

definition recallEffect :: "Backend \<Rightarrow> string \<Rightarrow> ManagerState \<Rightarrow> command list \<times> ManagerState" where
  "recallEffect be i st =
     (case reply_recall_authentication be i of
        Inr b \<Rightarrow>
          (recall_authentication i # pollStatus st,
           st\<lparr>allowed := \<lparr>allowed_value = b, allowed_error = None\<rparr>, loading := False\<rparr>)
      | Inl e \<Rightarrow>
          (recall_authentication i # pollStatus st,
           st\<lparr>allowed := \<lparr>allowed_value = False, allowed_error = Some e\<rparr>, loading := False\<rparr>))"

datatype view = LoadingView | ClientNotFound | ClientPanel | FailurePanel

definition render :: "ManagerState \<Rightarrow> view" where
  "render st =
     (if loading st then LoadingView
      else if client st = None then ClientNotFound
      else if allowed_value (allowed st) then ClientPanel else FailurePanel)"

definition reauthenticateClick :: "ManagerState \<Rightarrow> ManagerState" where
  "reauthenticateClick st = (if render st = FailurePanel then st\<lparr>showAuth := True\<rparr> else st)"

subsection \<open>Creating a connection\<close>

text \<open>
  \<open>createClick\<close> is \<open>onClick\<close> of the \<open>Create\<close> button of the dialog, which exists only
  when the client is known.
\<close>

definition createClick :: "Backend \<Rightarrow> ManagerState \<Rightarrow> command list \<times> ManagerState" where
  "createClick be st =
     (case client st of
        None \<Rightarrow> ([], st)
      | Some c \<Rightarrow>
          if truthy (selectedVersion st) \<and> truthy (selectedServer st) then
            (case find (\<lambda>conn. conn_server conn = selectedServer st \<and>
                               conn_version conn = selectedVersion st) (connections st) of
               Some existingConnection \<Rightarrow>
                 ([], st\<lparr>errLabel := Some ''Connection with this server and version already exists''\<rparr>)
             | None \<Rightarrow>
                 (case reply_create_connection be (client_id c) (selectedServer st) (selectedVersion st) of
                    Inr i \<Rightarrow>
                      (create_connection (client_id c) (selectedServer st) (selectedVersion st)
                         # pollStatus st,
                       st\<lparr>showNewDialog := False, selectedVersion := '''', selectedServer := ''''\<rparr>)
                  | Inl e \<Rightarrow>
                      ([create_connection (client_id c) (selectedServer st) (selectedVersion st)], st)))
          else ([], st))"

subsection \<open>The list of connections\<close>

text \<open>
  A JavaScript number is \<open>NaN\<close> or a value: one of the two infinities or a finite
  number, taken from an ordered ring (every finite double is a rational, and on
  doubles \<open>!==\<close> and the sign of a difference are exact). The values are ordered as
  \<open><\<close> orders them. \<open>Number\<close> itself is a parameter of the comparator.
\<close>

datatype 'a number = NegInfinity | Finite 'a | PosInfinity

datatype 'a jsnum = NaN | Value "'a number"

instantiation number :: (linorder) linorder
begin

fun less_eq_number :: "'a number \<Rightarrow> 'a number \<Rightarrow> bool" where
  "less_eq_number NegInfinity y = True"
| "less_eq_number (Finite a) NegInfinity = False"
| "less_eq_number (Finite a) (Finite b) = (a \<le> b)"
| "less_eq_number (Finite a) PosInfinity = True"
| "less_eq_number PosInfinity NegInfinity = False"
| "less_eq_number PosInfinity (Finite b) = False"
| "less_eq_number PosInfinity PosInfinity = True"

definition less_number :: "'a number \<Rightarrow> 'a number \<Rightarrow> bool" where
  "less_number x y \<longleftrightarrow> x \<le> y \<and> \<not> y \<le> x"

instance
proof
  fix x y z :: "'a number"
  show "x < y \<longleftrightarrow> x \<le> y \<and> \<not> y \<le> x" by (simp add: less_number_def)
  show "x \<le> x" by (cases x) simp_all
  show "x \<le> y \<Longrightarrow> y \<le> z \<Longrightarrow> x \<le> z" by (cases x; cases y; cases z) simp_all
  show "x \<le> y \<Longrightarrow> y \<le> x \<Longrightarrow> x = y" by (cases x; cases y) simp_all
  show "x \<le> y \<or> y \<le> x" by (cases x; cases y) auto
qed

end

text \<open>
  \<open>at\<close> is an array read, \<open>None\<close> for \<open>undefined\<close>. \<open>orZero x\<close> is \<open>x || 0\<close>, in which
  \<open>undefined\<close>, \<open>NaN\<close> and zero are falsy; its result is never \<open>NaN\<close>, so \<open>!==\<close> on two
  results is inequality. \<open>difference a b\<close> is \<open>a - b\<close>, which is \<open>NaN\<close> for an infinity
  and itself. \<open>negative v\<close> is \<open>v < 0\<close>, false for \<open>NaN\<close>.
\<close>

definition at :: "'b list \<Rightarrow> nat \<Rightarrow> 'b option" where
  "at xs i = (if i < length xs then Some (xs ! i) else None)"

definition orZero :: "('a::zero) jsnum option \<Rightarrow> 'a number" where
  "orZero x = (case x of None \<Rightarrow> Finite 0 | Some NaN \<Rightarrow> Finite 0 | Some (Value v) \<Rightarrow> v)"

fun difference :: "('a::linordered_idom) number \<Rightarrow> 'a number \<Rightarrow> 'a jsnum" where
  "difference (Finite a) (Finite b) = Value (Finite (a - b))"
| "difference (Finite a) NegInfinity = Value PosInfinity"
| "difference (Finite a) PosInfinity = Value NegInfinity"
| "difference PosInfinity PosInfinity = NaN"
| "difference PosInfinity (Finite b) = Value PosInfinity"
| "difference PosInfinity NegInfinity = Value PosInfinity"
| "difference NegInfinity NegInfinity = NaN"
| "difference NegInfinity (Finite b) = Value NegInfinity"
| "difference NegInfinity PosInfinity = Value NegInfinity"

fun negative :: "('a::linordered_idom) jsnum \<Rightarrow> bool" where
  "negative NaN = False"
| "negative (Value NegInfinity) = True"
| "negative (Value (Finite a)) = (a < 0)"
| "negative (Value PosInfinity) = False"

text \<open>\<open>s.split(sep)\<close> for a separator of one code unit: never an empty list.\<close>

fun splitOn :: "char \<Rightarrow> string \<Rightarrow> string list" where
  "splitOn sep [] = [[]]"
| "splitOn sep (c # cs) =
     (if c = sep then [] # splitOn sep cs
      else (case splitOn sep cs of [] \<Rightarrow> [[c]] | p # ps \<Rightarrow> (c # p) # ps))"

text \<open>The \<open>for\<close> loop of the comparator: the difference it returns, or \<open>None\<close> when it ends.\<close>

function versionLoop ::
  "nat \<Rightarrow> ('a::linordered_idom) jsnum list \<Rightarrow> 'a jsnum list \<Rightarrow> 'a jsnum option" where
  "versionLoop i version1Parts version2Parts =
     (if i < max (length version1Parts) (length version2Parts) then
        (let v1 = orZero (at version1Parts i); v2 = orZero (at version2Parts i) in
         if v1 \<noteq> v2 then Some (difference v2 v1)
         else versionLoop (i + 1) version1Parts version2Parts)
      else None)"
  by pat_completeness auto
termination
  by (relation "measure (\<lambda>(i, p1, p2). max (length p1) (length p2) - i)") auto

declare versionLoop.simps [simp del]

type_synonym pollEntry = "string \<times> bool \<times> BackendClientConnection"

definition compareFn ::
  "(string \<Rightarrow> ('a::linordered_idom) jsnum) \<Rightarrow> pollEntry \<Rightarrow> pollEntry \<Rightarrow> 'a jsnum" where
  "compareFn Number e1 e2 =
     (let conn1 = snd (snd e1); conn2 = snd (snd e2);
          version1Parts = map Number (splitOn CHR ''.'' (bcc_version conn1));
          version2Parts = map Number (splitOn CHR ''.'' (bcc_version conn2)) in
      case versionLoop 0 version1Parts version2Parts of
        Some d \<Rightarrow> d
      | None \<Rightarrow>
          difference (Finite (of_nat (length (name (bcc_server conn2)))))
            (Finite (of_nat (length (name (bcc_server conn1))))))"

text \<open>
  \<open>Array.prototype.sort\<close> is stable, and with a consistent comparator it returns the
  sorted permutation; it is modelled by the stable insertion sort: an element goes
  before the first element the comparator puts it strictly before (a negative
  result).
\<close>

fun insertSorted ::
  "('e \<Rightarrow> 'e \<Rightarrow> ('a::linordered_idom) jsnum) \<Rightarrow> 'e \<Rightarrow> 'e list \<Rightarrow> 'e list" where
  "insertSorted cmp x [] = [x]"
| "insertSorted cmp x (y # ys) =
     (if negative (cmp x y) then x # y # ys else y # insertSorted cmp x ys)"

definition arraySort ::
  "('e \<Rightarrow> 'e \<Rightarrow> ('a::linordered_idom) jsnum) \<Rightarrow> 'e list \<Rightarrow> 'e list" where
  "arraySort cmp xs = foldl (\<lambda>sorted x. insertSorted cmp x sorted) [] xs"

definition toConnection :: "pollEntry \<Rightarrow> Connection" where
  "toConnection e =
     (let state = fst (snd e); connection = snd (snd e) in
      \<lparr>conn_id = bcc_id connection, conn_server = name (bcc_server connection),
       conn_version = bcc_version connection, connected = state\<rparr>)"

text \<open>
  The handler of the reply to \<open>get_instances\<close>; \<open>response\<close> is \<open>Object.entries\<close> of the
  reply.
\<close>

definition renderConnections ::
  "(string \<Rightarrow> ('a::linordered_idom) jsnum) \<Rightarrow> pollEntry list \<Rightarrow> Connection list" where
  "renderConnections Number response = map toConnection (arraySort (compareFn Number) response)"

definition pollResponse ::
  "(string \<Rightarrow> ('a::linordered_idom) jsnum) \<Rightarrow> pollEntry list \<Rightarrow> ManagerState \<Rightarrow> ManagerState" where
  "pollResponse Number response st = st\<lparr>connections := renderConnections Number response\<rparr>"

text \<open>
  The order the list is meant to have, in the words of its description: the numeric
  components of a version, position by position, a missing component counting as
  zero.
\<close>

definition component :: "(string \<Rightarrow> ('a::zero) jsnum) \<Rightarrow> string \<Rightarrow> nat \<Rightarrow> 'a number" where
  "component Number v i = orZero (at (map Number (splitOn CHR ''.'' v)) i)"

definition components :: "string \<Rightarrow> nat" where
  "components v = length (splitOn CHR ''.'' v)"

definition versionGreater :: "(string \<Rightarrow> ('a::linordered_idom) jsnum) \<Rightarrow> string \<Rightarrow> string \<Rightarrow> bool" where
  "versionGreater Number v w \<longleftrightarrow>
     (\<exists>k < max (components v) (components w).
        component Number w k < component Number v k \<and>
        (\<forall>i < k. component Number v i = component Number w i))"

definition versionEqual :: "(string \<Rightarrow> ('a::linordered_idom) jsnum) \<Rightarrow> string \<Rightarrow> string \<Rightarrow> bool" where
  "versionEqual Number v w \<longleftrightarrow>
     (\<forall>i < max (components v) (components w). component Number v i = component Number w i)"

definition listedBefore :: "(string \<Rightarrow> ('a::linordered_idom) jsnum) \<Rightarrow> Connection \<Rightarrow> Connection \<Rightarrow> bool" where
  "listedBefore Number a b \<longleftrightarrow>
     versionGreater Number (conn_version a) (conn_version b) \<or>
     (versionEqual Number (conn_version a) (conn_version b) \<and>
      length (conn_server b) \<le> length (conn_server a))"

section \<open>The server page (Servers.tsx)\<close>

text \<open>The page's own \<open>ServerEntry\<close> has a fourth field, the number of connections.\<close>

record ServerRow =
  row_name :: string
  row_ip :: string
  row_port :: int
  row_connections :: nat

record ServerInput =
  input_name :: string
  input_ip :: string
  input_port :: int

record ServersState =
  showDialog :: bool
  serverInput :: ServerInput
  server_rows :: "ServerRow list"

definition handleSubmit :: "Backend \<Rightarrow> ServersState \<Rightarrow> command list \<times> ServersState" where
  "handleSubmit be st =
     (let i = serverInput st in
      case reply_add_server be (input_name i) (input_ip i) (input_port i) of
        Inr u \<Rightarrow>
          ([add_server (input_name i) (input_ip i) (input_port i)],
           st\<lparr>server_rows := server_rows st @
                 [\<lparr>row_name = input_name i, row_ip = input_ip i, row_port = input_port i,
                   row_connections = 0\<rparr>],
              showDialog := False\<rparr>)
      | Inl e \<Rightarrow>
          ([add_server (input_name i) (input_ip i) (input_port i)], st\<lparr>showDialog := False\<rparr>))"

section \<open>The backend, as the specification describes it\<close>

text \<open>
  The commands are implemented in the Rust backend, which is not among the sources.
  Where a property speaks about what a command does, the command is modelled from the
  specification's description of it.
\<close>

datatype error =
    ValidationError | AuthError | CacheMissError | DuplicateServerError
  | DuplicateConnectionError | UnknownServerError | NotConnectedError
  | EmptyMessageError | ConnectError | PersistenceError

record AuthCacheEntry =
  token :: string
  validUntil :: nat
  entry_profile :: ProfileData

text \<open>
  Modelled from the spec: \<open>finishDeviceFlow(loginKey, persist)\<close>, the command
  \<open>auth_ms_finish\<close> of the backend, which is not among the sources. The outcome of the
  device flow is a parameter: \<open>Inl\<close> for a timeout or a denial, \<open>Inr\<close> for the resolved
  profile and token. On success the entry is stored under \<open>loginKey\<close> when \<open>persist\<close> is
  true, and the profile is returned.
\<close>

definition finishDeviceFlow ::
  "error + AuthCacheEntry \<Rightarrow> string \<Rightarrow> bool \<Rightarrow> (string \<rightharpoonup> AuthCacheEntry) \<Rightarrow>
   error + ProfileData \<times> (string \<rightharpoonup> AuthCacheEntry)" where
  "finishDeviceFlow flow key persist cache =
     (case flow of
        Inl e \<Rightarrow> Inl AuthError
      | Inr entry \<Rightarrow>
          Inr (entry_profile entry, if persist then cache(key \<mapsto> entry) else cache))"

text \<open>
  Modelled from the spec: \<open>sendChat(id, connectionId, message)\<close>, the command \<open>send_chat\<close>
  of the backend, which is not among the sources. It fails with \<open>EmptyMessageError\<close>
  when the message is blank and with \<open>NotConnectedError\<close> when the connection is not
  in state \<open>Connected\<close>; otherwise the message goes to the session handle (\<open>Inr\<close>). The
  spec gives the two failures no order; the argument is checked before the state.
\<close>

datatype connState = Idle | Connecting | Connected | Disconnecting | Terminated

definition sendChat :: "connState \<Rightarrow> string \<Rightarrow> error + string" where
  "sendChat s message =
     (if blank message then Inl EmptyMessageError
      else if s \<noteq> Connected then Inl NotConnectedError
      else Inr message)"

text \<open>A server name is registered when an entry of the registry has it.\<close>

definition registered :: "ServerEntry list \<Rightarrow> string \<Rightarrow> bool" where
  "registered registry serverName \<longleftrightarrow> list_ex (\<lambda>e. name e = serverName) registry"

text \<open>
  Modelled from the spec: the server registry with its persisted document, and
  \<open>addServer(entry)\<close>, the command \<open>add_server\<close> of the backend, which is not among the
  sources. The encoding of the document belongs to the persistence collaborator and
  is a parameter. A name that is already registered gives \<open>DuplicateServerError\<close>;
  otherwise the entry is added and the document rewritten.
\<close>

record ServerStore =
  entries :: "ServerEntry list"
  document :: string

definition addServer ::
  "(ServerEntry list \<Rightarrow> string) \<Rightarrow> ServerEntry \<Rightarrow> ServerStore \<Rightarrow> (error + unit) \<times> ServerStore" where
  "addServer encode entry store =
     (if registered (entries store) (name entry) then (Inl DuplicateServerError, store)
      else (Inr (), \<lparr>entries = entries store @ [entry],
                     document = encode (entries store @ [entry])\<rparr>))"

text \<open>
  Modelled from the spec: a registered client and \<open>recallAuthentication(clientId)\<close>,
  the command \<open>recall_authentication\<close> of the backend, which is not among the sources.
  \<open>cached\<close> is the cached token associated with the client, if any, and \<open>now\<close> the time
  of the call. An offline identity has no token to validate. A token inside its
  validity window gives \<open>True\<close> and refreshes the profile from the cache entry; a
  missing or expired token gives \<open>False\<close>.
\<close>

datatype identityKind = Microsoft | Offline

record BClient =
  bclient_id :: string
  displayName :: string
  identityKind :: identityKind
  profile :: ProfileData

definition recallAuthentication :: "nat \<Rightarrow> AuthCacheEntry option \<Rightarrow> BClient \<Rightarrow> bool \<times> BClient" where
  "recallAuthentication now cached c =
     (case identityKind c of
        Offline \<Rightarrow> (True, c)
      | Microsoft \<Rightarrow>
          (case cached of
             None \<Rightarrow> (False, c)
           | Some e \<Rightarrow>
               if now < validUntil e then (True, c\<lparr>profile := entry_profile e\<rparr>)
               else (False, c)))"

section \<open>Notions used in the proofs\<close>


definition orderly :: "ManagerState \<Rightarrow> bool" where
  "orderly st \<longleftrightarrow>
     unsettled st = [] \<and>
     (case listeners st of
        [] \<Rightarrow> True
      | [l] \<Rightarrow> connectionListener st = Some (fst l)
      | l # l' # ls \<Rightarrow> False)"

text \<open>
  A version is read as the infinite sequence of its components, zero from the end of
  the version on; \<open>lexGreater\<close> is the lexicographic order on such sequences.
  \<open>ranksBefore\<close> is the order the comparator induces on the entries of a reply.
\<close>

definition lexGreater :: "(nat \<Rightarrow> 'a::linorder) \<Rightarrow> (nat \<Rightarrow> 'a) \<Rightarrow> bool" where
  "lexGreater f g \<longleftrightarrow> (\<exists>k. g k < f k \<and> (\<forall>i<k. f i = g i))"

definition partAt :: "('a::zero) jsnum list \<Rightarrow> nat \<Rightarrow> 'a number" where
  "partAt ps i = orZero (at ps i)"

definition versionOf :: "pollEntry \<Rightarrow> string" where
  "versionOf e = bcc_version (snd (snd e))"

definition nameLength :: "pollEntry \<Rightarrow> nat" where
  "nameLength e = length (name (bcc_server (snd (snd e))))"

definition ranksBefore ::
  "(string \<Rightarrow> ('a::linordered_idom) jsnum) \<Rightarrow> pollEntry \<Rightarrow> pollEntry \<Rightarrow> bool" where
  "ranksBefore Number a b \<longleftrightarrow>
     lexGreater (component Number (versionOf a)) (component Number (versionOf b)) \<or>
     (component Number (versionOf a) = component Number (versionOf b) \<and>
      nameLength b \<le> nameLength a)"

section \<open>Example inputs\<close>

definition steve :: ProfileData where
  "steve = \<lparr>data_uuid = ''5627dd98-e6be-3c21-b8a8-e92344183641'', data_username = ''Steve'',
            data_skins = None, data_capes = None\<rparr>"

text \<open>A backend whose credential cache is empty and whose device flow succeeds.\<close>

definition coldBackend :: Backend where
  "coldBackend =
     \<lparr>reply_auth_offline = (\<lambda>u. Inr (''client-1'', steve)),
      reply_auth_ms_finish = (\<lambda>k r. Inr (''client-1'', steve)),
      reply_auth_ms_cache = (\<lambda>k. Inl ''No cached credentials''),
      reply_auth_ms_init =
        (\<lambda>k. Inr \<lparr>uri = ''https://www.microsoft.com/link'', code = ''ABCD1234''\<rparr>),
      reply_recall_authentication = (\<lambda>i. Inr False),
      reply_create_connection = (\<lambda>i s v. Inr ''connection-1''),
      reply_send_chat = (\<lambda>i k m. Inr ()),
      reply_add_server = (\<lambda>n h p. Inr ())\<rparr>"

definition steveEntry :: AuthCacheEntry where
  "steveEntry = \<lparr>token = ''eyJhbGciOi'', validUntil = 86400, entry_profile = steve\<rparr>"

definition steveClient :: ClientEntry where
  "steveClient =
     \<lparr>client_id = ''client-1'', client_username = ''Steve'', auth = False,
      client_uuid = Some ''5627dd98-e6be-3c21-b8a8-e92344183641'', instance_count = 1\<rparr>"

definition hub :: ServerEntry where
  "hub = \<lparr>name = ''Hub'', ip = ''play.example.com'', port = 25565\<rparr>"

definition hub121 :: Connection where
  "hub121 = \<lparr>conn_id = ''connection-1'', conn_server = ''Hub'', conn_version = ''1.21'',
              connected = True\<rparr>"

text \<open>The page of Steve with one connection.\<close>

definition stevePage :: ManagerState where
  "stevePage = initialManagerState\<lparr>loading := False, client := Some steveClient,
     connections := [hub121], versions := [''1.21''], servers := [''Hub'']\<rparr>"





text \<open>
  \<open>Number\<close> on the strings of decimal digits, the empty string included; this
  function gives \<open>NaN\<close> for every other string, which \<open>Number\<close> does not.
\<close>

definition decimalNumber :: "string \<Rightarrow> int jsnum" where
  "decimalNumber s =
     (if list_all (\<lambda>c. 48 \<le> (of_char c :: nat) \<and> (of_char c :: nat) \<le> 57) s
      then Value (Finite (foldl (\<lambda>n c. 10 * n + (of_char c - 48)) 0 s)) else NaN)"

definition polledEntry :: "string \<Rightarrow> bool \<Rightarrow> string \<Rightarrow> string \<Rightarrow> pollEntry" where
  "polledEntry i up server v =
     (i, up, \<lparr>bcc_id = i, bcc_server = \<lparr>name = server, ip = ''play.example.com'', port = 25565\<rparr>,
              bcc_version = v\<rparr>)"

definition polled :: "pollEntry list" where
  "polled =
     [polledEntry ''a'' False ''Hub'' ''1.8.9'', polledEntry ''b'' True ''Lobby'' ''1.21'',
      polledEntry ''c'' False ''Hub'' ''1.21.4'', polledEntry ''d'' True ''Survival'' ''1.21'']"

definition namesDocument :: "ServerEntry list \<Rightarrow> string" where
  "namesDocument es = concat (map (\<lambda>e. name e @ '';'') es)"

definition hubStore :: ServerStore where
  "hubStore = \<lparr>entries = [hub], document = namesDocument [hub]\<rparr>"

definition hubAgain :: ServersState where
  "hubAgain =
     \<lparr>showDialog = True,
      serverInput = \<lparr>input_name = ''Hub'', input_ip = ''10.0.0.7'', input_port = 25565\<rparr>,
      server_rows = [\<lparr>row_name = ''Hub'', row_ip = ''play.example.com'', row_port = 25565,
                      row_connections = 0\<rparr>]\<rparr>"

definition rejecting :: Backend where
  "rejecting = coldBackend\<lparr>reply_add_server := (\<lambda>n h p. Inl ''Server Hub already exists'')\<rparr>"

definition steveRegistered :: BClient where
  "steveRegistered =
     \<lparr>bclient_id = ''client-1'', displayName = ''Steve'', identityKind = Microsoft,
      profile = steve\<rparr>"

section \<open>Properties of the authentication dialog\<close>

lemma handleAuthenticate_invoked:
  "fst (handleAuthenticate be st) = [] \<or>
   fst (handleAuthenticate be st) = [auth_ms_cache (loginKey st)] \<or>
   fst (handleAuthenticate be st) = [auth_ms_cache (loginKey st), auth_ms_init (loginKey st)] \<or>
   fst (handleAuthenticate be st) = [auth_offline (loginKey st)]"
  by (simp add: handleAuthenticate_def cachedAuth_def offlineAuth_def completeAuth_def Let_def
      split: sum.splits prod.splits)

lemma finalizeAuthentication_invoked:
  "fst (finalizeAuthentication be st) = [auth_ms_finish (loginKey st) True]"
  by (simp add: finalizeAuthentication_def finishAuth_def completeAuth_def Let_def
      split: sum.splits prod.splits)

lemma authStep_finish:
  "auth_ms_finish k r \<in> set (fst (authStep be st ev)) \<Longrightarrow> r"
proof (cases ev)
  case Authenticate
  then show "auth_ms_finish k r \<in> set (fst (authStep be st ev)) \<Longrightarrow> r"
    using handleAuthenticate_invoked [of be st] by (auto split: if_splits)
next
  case Proceed
  then show "auth_ms_finish k r \<in> set (fst (authStep be st ev)) \<Longrightarrow> r"
    using finalizeAuthentication_invoked [of be st] by (auto split: if_splits)
qed auto

lemma authRun_finish:
  "auth_ms_finish k r \<in> set (fst (authRun st evs)) \<Longrightarrow> r"
proof (induction evs arbitrary: st)
  case Nil
  then show ?case by simp
next
  case (Cons bev evs)
  obtain be ev where bev: "bev = (be, ev)" by (cases bev)
  obtain cs st' fin where step: "authStep be st ev = (cs, st', fin)"
    by (cases "authStep be st ev")
  obtain cs' st'' where run: "authRun st' evs = (cs', st'')"
    by (cases "authRun st' evs")
  from Cons.prems bev step run
  have "auth_ms_finish k r \<in> set cs \<or> auth_ms_finish k r \<in> set cs'"
    by simp
  then show ?case
  proof
    assume "auth_ms_finish k r \<in> set cs"
    then show ?thesis using authStep_finish [of k r be st ev] step by simp
  next
    assume "auth_ms_finish k r \<in> set cs'"
    then show ?thesis using Cons.IH [of st'] run by simp
  qed
qed

text \<open>
  C5. When the Microsoft path is taken with a non-blank login key and the command
  \<open>auth_ms_cache\<close> is rejected, with whatever error, \<open>handleAuthenticate\<close> invokes
  \<open>auth_ms_init\<close> next, with the same login key, and nothing else. The rejection is not
  shown: the label keeps its type and has an empty message, and \<open>onFinish\<close> is not
  called.
\<close>

theorem cache_failure_falls_back_to_device_flow:
  assumes "truthy (trim (loginKey st))"
    and "authType st = microsoft"
    and "reply_auth_ms_cache be (loginKey st) = Inl e"
  shows "\<exists>st'. handleAuthenticate be st =
           ([auth_ms_cache (loginKey st), auth_ms_init (loginKey st)], st', None) \<and>
         label st' = (label st)\<lparr>label_message := ''''\<rparr>"
  using assms
  by (simp add: handleAuthenticate_def cachedAuth_def Let_def split: sum.splits)

theorem cache_failure_falls_back_witness:
  "\<exists>st'. handleAuthenticate coldBackend (initialAuthState\<lparr>loginKey := ''steve@example.com''\<rparr>) =
           ([auth_ms_cache ''steve@example.com'', auth_ms_init ''steve@example.com''], st', None) \<and>
         label st' = \<lparr>label_type = '''', label_message = ''''\<rparr>"
  using cache_failure_falls_back_to_device_flow
    [of "initialAuthState\<lparr>loginKey := ''steve@example.com''\<rparr>" coldBackend "''No cached credentials''"]
  by (simp add: truthy_def trim_def isWhiteSpace_def initialAuthState_def coldBackend_def)

text \<open>
  C10. Whatever the user does in the dialog and whatever the backend replies, every
  \<open>auth_ms_finish\<close> the dialog invokes has \<open>register\<close> set to true. Hence, with the
  backend as the specification describes it, a device flow that succeeds stores its
  token in the credential cache under the login key.
\<close>

theorem finishAuth_always_persists:
  "auth_ms_finish k r \<in> set (fst (authRun st evs)) \<Longrightarrow>
     r = True \<and>
     finishDeviceFlow (Inr entry) k r cache = Inr (entry_profile entry, cache(k \<mapsto> entry))"
  using authRun_finish [of k r st evs] by (simp add: finishDeviceFlow_def)

theorem finishAuth_always_persists_witness:
  "fst (authRun initialAuthState
          [(coldBackend, SetLoginKey ''steve@example.com''), (coldBackend, Authenticate),
           (coldBackend, Proceed)])
     = [auth_ms_cache ''steve@example.com'', auth_ms_init ''steve@example.com'',
        auth_ms_finish ''steve@example.com'' True] \<and>
   finishDeviceFlow (Inr steveEntry) ''steve@example.com'' True Map.empty
     = Inr (steve, [''steve@example.com'' \<mapsto> steveEntry])"
proof -
  have run:
    "fst (authRun initialAuthState
            [(coldBackend, SetLoginKey ''steve@example.com''), (coldBackend, Authenticate),
             (coldBackend, Proceed)])
       = [auth_ms_cache ''steve@example.com'', auth_ms_init ''steve@example.com'',
          auth_ms_finish ''steve@example.com'' True]"
    by (simp add: initialAuthState_def coldBackend_def handleAuthenticate_def
        finalizeAuthentication_def cachedAuth_def finishAuth_def completeAuth_def truthy_def
        trim_def isWhiteSpace_def Let_def)
  then have "auth_ms_finish ''steve@example.com'' True \<in>
      set (fst (authRun initialAuthState
            [(coldBackend, SetLoginKey ''steve@example.com''), (coldBackend, Authenticate),
             (coldBackend, Proceed)]))"
    by simp
  from finishAuth_always_persists [OF this, of steveEntry Map.empty] run
  show ?thesis by (simp add: steveEntry_def)
qed

section \<open>Properties of the chat\<close>

lemma dropWhile_all_Nil: "(\<forall>x\<in>set (dropWhile P s). P x) \<longleftrightarrow> dropWhile P s = []"
proof
  assume a: "\<forall>x\<in>set (dropWhile P s). P x"
  show "dropWhile P s = []"
  proof (rule ccontr)
    assume n: "dropWhile P s \<noteq> []"
    then have "\<not> P (hd (dropWhile P s))" by (rule hd_dropWhile)
    moreover have "hd (dropWhile P s) \<in> set (dropWhile P s)" using n by simp
    ultimately show False using a by blast
  qed
qed (auto dest: set_dropWhileD)

lemma trim_empty_iff: "trim s = [] \<longleftrightarrow> blank s"
proof -
  have "trim s = [] \<longleftrightarrow> (\<forall>x\<in>set (dropWhile isWhiteSpace s). isWhiteSpace x)"
    unfolding trim_def by (simp add: dropWhile_eq_Nil_conv)
  also have "\<dots> \<longleftrightarrow> dropWhile isWhiteSpace s = []" by (rule dropWhile_all_Nil)
  finally show ?thesis by (simp add: dropWhile_eq_Nil_conv list_all_iff blank_def)
qed

lemma truthy_trim: "truthy (trim s) \<longleftrightarrow> \<not> blank s"
  by (simp add: truthy_def trim_empty_iff)

lemma sendChatMessage_invoked:
  "fst (sendChatMessage be st connection message) =
     (case client st of
        None \<Rightarrow> []
      | Some c \<Rightarrow>
          if blank (chatMessage st) then []
          else [send_chat (client_id c) (conn_id connection) message])"
  by (simp add: sendChatMessage_def truthy_trim split: option.splits sum.splits)

text \<open>
  C6. From the chat input, by the \<open>Send\<close> button or by a key, \<open>send_chat\<close> is invoked
  exactly when the client is known and the typed message is not blank (with a key,
  when the key is \<open>Enter\<close>), and it carries the typed message as it is. With the
  backend as the specification describes it, a blank message is refused with
  \<open>EmptyMessageError\<close>, and a message that is not blank is handed to the session of a
  connected connection unchanged.
\<close>

theorem send_chat_only_when_not_blank:
  "fst (sendClick be st connection) =
     (case client st of
        None \<Rightarrow> []
      | Some c \<Rightarrow>
          if blank (chatMessage st) then []
          else [send_chat (client_id c) (conn_id connection) (chatMessage st)]) \<and>
   fst (chatKeyDown be st connection key) =
     (case client st of
        None \<Rightarrow> []
      | Some c \<Rightarrow>
          if key = ''Enter'' \<and> \<not> blank (chatMessage st)
          then [send_chat (client_id c) (conn_id connection) (chatMessage st)] else []) \<and>
   sendChat s message =
     (if blank message then Inl EmptyMessageError
      else if s = Connected then Inr message else Inl NotConnectedError)"
  by (simp add: sendClick_def chatKeyDown_def sendChatMessage_invoked truthy_trim sendChat_def
      split: option.splits)

theorem send_chat_only_when_not_blank_witness:
  "fst (sendClick coldBackend (stevePage\<lparr>chatMessage := '' hello ''\<rparr>) hub121)
     = [send_chat ''client-1'' ''connection-1'' '' hello ''] \<and>
   fst (sendClick coldBackend (stevePage\<lparr>chatMessage := ''   ''\<rparr>) hub121) = [] \<and>
   fst (chatKeyDown coldBackend (stevePage\<lparr>chatMessage := '' hello ''\<rparr>) hub121 ''Enter'')
     = [send_chat ''client-1'' ''connection-1'' '' hello ''] \<and>
   sendChat Connected ''   '' = Inl EmptyMessageError \<and>
   sendChat Connected '' hello '' = Inr '' hello ''"
proof -
  have b1: "\<not> blank '' hello ''" by (simp add: blank_def isWhiteSpace_def)
  have b2: "blank ''   ''" by (simp add: blank_def isWhiteSpace_def)
  have c: "client stevePage = Some steveClient"
    by (simp add: stevePage_def initialManagerState_def)
  note t = send_chat_only_when_not_blank
  from t [of coldBackend "stevePage\<lparr>chatMessage := '' hello ''\<rparr>" hub121 "''Enter''" Connected
      "'' hello ''"]
    t [of coldBackend "stevePage\<lparr>chatMessage := ''   ''\<rparr>" hub121 "''Enter''" Connected "''   ''"]
    b1 b2 c
  show ?thesis by (simp add: steveClient_def hub121_def)
qed










lemma orderly_collapse:
  assumes "orderly st" and "expandedConnection st = int index"
  shows "orderly (toggleConnection index connection st) \<and>
         listeners (toggleConnection index connection st) = [] \<and>
         chatHistory (toggleConnection index connection st) = chatHistory st"
  using assms
  by (auto simp: orderly_def toggleConnection_def unlisten_def Let_def
      split: list.splits option.splits)




section \<open>Properties of the list of connections\<close>

lemma lexGreater_asym: "lexGreater f g \<Longrightarrow> \<not> lexGreater g f"
proof
  assume "lexGreater f g" and "lexGreater g f"
  then obtain k l where k: "g k < f k" "\<forall>i<k. f i = g i" and l: "f l < g l" "\<forall>i<l. g i = f i"
    unfolding lexGreater_def by blast
  show False
  proof (cases k l rule: linorder_cases)
    case less
    with l(2) k(1) show False by simp
  next
    case equal
    with k(1) l(1) show False by simp
  next
    case greater
    with k(2) l(1) show False by simp
  qed
qed

lemma lexGreater_trans: "lexGreater f g \<Longrightarrow> lexGreater g h \<Longrightarrow> lexGreater f h"
proof -
  assume "lexGreater f g" and "lexGreater g h"
  then obtain k l where k: "g k < f k" "\<forall>i<k. f i = g i" and l: "h l < g l" "\<forall>i<l. g i = h i"
    unfolding lexGreater_def by blast
  have "h (min k l) < f (min k l) \<and> (\<forall>i<min k l. f i = h i)"
  proof (cases k l rule: linorder_cases)
    case less
    then show ?thesis using k l by (simp add: min_def)
  next
    case equal
    then show ?thesis using k l by (auto simp: min_def)
  next
    case greater
    then show ?thesis using k l by (simp add: min_def)
  qed
  then show ?thesis unfolding lexGreater_def by blast
qed

lemma lexGreater_total: "f = g \<or> lexGreater f g \<or> lexGreater g f"
proof (cases "f = g")
  case False
  then have ex: "\<exists>k. f k \<noteq> g k" by auto
  define k where "k = (LEAST k. f k \<noteq> g k)"
  have d: "f k \<noteq> g k" unfolding k_def using ex by (rule LeastI_ex)
  have e: "\<forall>i<k. f i = g i" unfolding k_def using not_less_Least by blast
  from d have "g k < f k \<or> f k < g k" by auto
  then show ?thesis using e unfolding lexGreater_def by (metis)
qed simp

lemma lexGreater_first:
  "f k \<noteq> g k \<Longrightarrow> \<forall>i<k. f i = g i \<Longrightarrow> lexGreater f g \<longleftrightarrow> g k < f k"
proof
  assume d: "f k \<noteq> g k" and e: "\<forall>i<k. f i = g i" and "lexGreater f g"
  then obtain l where l: "g l < f l" "\<forall>i<l. f i = g i" unfolding lexGreater_def by blast
  show "g k < f k"
  proof (cases k l rule: linorder_cases)
    case less
    with l(2) d show ?thesis by simp
  next
    case equal
    with l(1) show ?thesis by simp
  next
    case greater
    with e l(1) show ?thesis by simp
  qed
next
  assume "\<forall>i<k. f i = g i" and "g k < f k"
  then show "lexGreater f g" unfolding lexGreater_def by blast
qed



lemma partAt_beyond: "length ps \<le> i \<Longrightarrow> partAt ps i = Finite 0"
  by (simp add: partAt_def at_def orZero_def)

lemma versionLoop_None:
  "versionLoop i p q = None \<Longrightarrow> i \<le> k \<Longrightarrow> partAt p k = partAt q k"
proof (induction i p q rule: versionLoop.induct)
  case (1 i p q)
  show ?case
  proof (cases "i < max (length p) (length q)")
    case True
    with "1.prems"(1) have eq: "partAt p i = partAt q i" and rest: "versionLoop (i + 1) p q = None"
      by (auto simp: versionLoop.simps [of i p q] partAt_def Let_def split: if_splits)
    show ?thesis
    proof (cases "k = i")
      case True
      with eq show ?thesis by simp
    next
      case False
      with "1.prems"(2) have "i + 1 \<le> k" by simp
      from "1.IH" [OF True refl refl _ rest this] eq show ?thesis by (simp add: partAt_def)
    qed
  next
    case False
    with "1.prems"(2) have "length p \<le> k" "length q \<le> k" by simp_all
    then show ?thesis by (simp add: partAt_beyond)
  qed
qed

lemma versionLoop_Some:
  "versionLoop i p q = Some d \<Longrightarrow>
   \<exists>k\<ge>i. partAt p k \<noteq> partAt q k \<and> (\<forall>j. i \<le> j \<and> j < k \<longrightarrow> partAt p j = partAt q j) \<and>
          d = difference (partAt q k) (partAt p k)"
proof (induction i p q rule: versionLoop.induct)
  case (1 i p q)
  from "1.prems" have lt: "i < max (length p) (length q)"
    by (auto simp: versionLoop.simps [of i p q] split: if_splits)
  show ?case
  proof (cases "partAt p i = partAt q i")
    case True
    with "1.prems" lt have rest: "versionLoop (i + 1) p q = Some d"
      by (auto simp: versionLoop.simps [of i p q] partAt_def Let_def split: if_splits)
    from "1.IH" [OF lt refl refl _ rest] True
    obtain k where k: "i + 1 \<le> k" "partAt p k \<noteq> partAt q k"
      "\<forall>j. i + 1 \<le> j \<and> j < k \<longrightarrow> partAt p j = partAt q j"
      "d = difference (partAt q k) (partAt p k)"
      by (auto simp: partAt_def)
    have "\<forall>j. i \<le> j \<and> j < k \<longrightarrow> partAt p j = partAt q j"
    proof (intro allI impI)
      fix j assume j: "i \<le> j \<and> j < k"
      show "partAt p j = partAt q j"
      proof (cases "j = i")
        case True
        with \<open>partAt p i = partAt q i\<close> show ?thesis by simp
      next
        case False
        with j k(3) show ?thesis by simp
      qed
    qed
    with k show ?thesis by (intro exI [of _ k]) simp
  next
    case False
    with "1.prems" lt have "d = difference (partAt q i) (partAt p i)"
      by (auto simp: versionLoop.simps [of i p q] partAt_def Let_def split: if_splits)
    with False show ?thesis by (intro exI [of _ i]) auto
  qed
qed




lemma component_partAt: "component Number v = partAt (map Number (splitOn CHR ''.'' v))"
  by (rule ext) (simp add: component_def partAt_def)

lemma negative_difference:
  "a \<noteq> b \<Longrightarrow> negative (difference b a) \<longleftrightarrow> b < a"
  by (cases a; cases b) (auto simp: less_number_def)

lemma compareFn_negative:
  "negative (compareFn Number a b) \<longleftrightarrow>
     lexGreater (component Number (versionOf a)) (component Number (versionOf b)) \<or>
     (component Number (versionOf a) = component Number (versionOf b) \<and>
      nameLength b < nameLength a)"
proof -
  define p where "p = map Number (splitOn CHR ''.'' (versionOf a))"
  define q where "q = map Number (splitOn CHR ''.'' (versionOf b))"
  have sa: "component Number (versionOf a) = partAt p" by (simp add: component_partAt p_def)
  have sb: "component Number (versionOf b) = partAt q" by (simp add: component_partAt q_def)
  show ?thesis
  proof (cases "versionLoop 0 p q")
    case None
    then have "\<And>k. partAt p k = partAt q k" by (rule versionLoop_None) simp
    then have eq: "partAt p = partAt q" by (rule ext)
    have c: "compareFn Number a b =
        difference (Finite (of_nat (nameLength b))) (Finite (of_nat (nameLength a)))"
      using None by (simp add: compareFn_def Let_def p_def q_def versionOf_def nameLength_def)
    have "\<not> lexGreater (partAt q) (partAt q)" using lexGreater_asym by blast
    then show ?thesis using eq c by (simp add: sa sb)
  next
    case (Some d)
    from versionLoop_Some [OF Some] obtain k where
      k: "partAt p k \<noteq> partAt q k" "\<forall>j<k. partAt p j = partAt q j"
        "d = difference (partAt q k) (partAt p k)"
      by auto
    have c: "compareFn Number a b = d"
      using Some by (simp add: compareFn_def Let_def p_def q_def versionOf_def)
    have ne: "partAt p \<noteq> partAt q" using k(1) by auto
    have "lexGreater (partAt p) (partAt q) \<longleftrightarrow> partAt q k < partAt p k"
      using k(1,2) by (rule lexGreater_first)
    moreover have "negative d \<longleftrightarrow> partAt q k < partAt p k"
      unfolding k(3) using k(1) by (rule negative_difference)
    ultimately show ?thesis using c ne by (simp add: sa sb)
  qed
qed

lemma not_negative_ranksBefore:
  "\<not> negative (compareFn Number b a) \<longleftrightarrow> ranksBefore Number a b"
proof -
  define f where "f = component Number (versionOf a)"
  define g where "g = component Number (versionOf b)"
  have neg: "negative (compareFn Number b a) \<longleftrightarrow>
      lexGreater g f \<or> (g = f \<and> nameLength a < nameLength b)"
    by (simp add: compareFn_negative f_def g_def)
  have rb: "ranksBefore Number a b \<longleftrightarrow> lexGreater f g \<or> (f = g \<and> nameLength b \<le> nameLength a)"
    by (simp add: ranksBefore_def f_def g_def)
  consider (eq) "f = g" | (gt) "lexGreater f g" | (lt) "lexGreater g f"
    using lexGreater_total [of f g] by blast
  then show ?thesis
  proof cases
    case eq
    have "\<not> lexGreater g g" using lexGreater_asym by blast
    with eq show ?thesis by (auto simp: neg rb)
  next
    case gt
    then have "\<not> lexGreater g f" by (rule lexGreater_asym)
    moreover have "g \<noteq> f" using gt lexGreater_asym by blast
    ultimately show ?thesis using gt by (simp add: neg rb)
  next
    case lt
    then have "\<not> lexGreater f g" by (rule lexGreater_asym)
    moreover have "f \<noteq> g" using lt lexGreater_asym by blast
    ultimately show ?thesis using lt by (simp add: neg rb)
  qed
qed

lemma negative_ranksBefore: "negative (compareFn Number a b) \<Longrightarrow> ranksBefore Number a b"
  by (auto simp: compareFn_negative ranksBefore_def)

lemma ranksBefore_trans:
  "ranksBefore Number a b \<Longrightarrow> ranksBefore Number b c \<Longrightarrow> ranksBefore Number a c"
  unfolding ranksBefore_def using lexGreater_trans by fastforce



lemma set_insertSorted: "set (insertSorted cmp x ys) = insert x (set ys)"
  by (induction ys) auto

lemma mset_insertSorted: "mset (insertSorted cmp x ys) = add_mset x (mset ys)"
  by (induction ys) auto

lemma sorted_insertSorted:
  "sorted_wrt (ranksBefore Number) ys \<Longrightarrow>
   sorted_wrt (ranksBefore Number) (insertSorted (compareFn Number) x ys)"
proof (induction ys)
  case Nil
  then show ?case by simp
next
  case (Cons y ys)
  show ?case
  proof (cases "negative (compareFn Number x y)")
    case True
    then have xy: "ranksBefore Number x y" by (rule negative_ranksBefore)
    have "\<forall>z\<in>set ys. ranksBefore Number x z"
    proof
      fix z assume "z \<in> set ys"
      with Cons.prems have "ranksBefore Number y z" by simp
      with xy show "ranksBefore Number x z" by (rule ranksBefore_trans)
    qed
    with True xy Cons.prems show ?thesis by simp
  next
    case False
    then have yx: "ranksBefore Number y x" by (simp add: not_negative_ranksBefore)
    from Cons have "sorted_wrt (ranksBefore Number) (insertSorted (compareFn Number) x ys)"
      by simp
    with False yx Cons.prems show ?thesis by (auto simp: set_insertSorted)
  qed
qed

lemma foldl_insertSorted_sorted:
  "sorted_wrt (ranksBefore Number) acc \<Longrightarrow>
   sorted_wrt (ranksBefore Number)
     (foldl (\<lambda>sorted x. insertSorted (compareFn Number) x sorted) acc xs)"
  by (induction xs arbitrary: acc) (simp_all add: sorted_insertSorted)

lemma foldl_insertSorted_mset:
  "mset (foldl (\<lambda>sorted x. insertSorted cmp x sorted) acc xs) = mset acc + mset xs"
  by (induction xs arbitrary: acc) (simp_all add: mset_insertSorted)

lemma arraySort_sorted: "sorted_wrt (ranksBefore Number) (arraySort (compareFn Number) xs)"
  unfolding arraySort_def by (rule foldl_insertSorted_sorted) simp

lemma arraySort_mset: "mset (arraySort cmp xs) = mset xs"
  unfolding arraySort_def by (simp add: foldl_insertSorted_mset)



lemma component_beyond: "components v \<le> i \<Longrightarrow> component Number v i = Finite 0"
  by (simp add: component_def components_def at_def orZero_def)

lemma lexGreater_versionGreater:
  "lexGreater (component Number v) (component Number w) \<longleftrightarrow> versionGreater Number v w"
proof
  assume "lexGreater (component Number v) (component Number w)"
  then obtain k where k: "component Number w k < component Number v k"
    "\<forall>i<k. component Number v i = component Number w i"
    unfolding lexGreater_def by blast
  have "k < max (components v) (components w)"
  proof (rule ccontr)
    assume "\<not> k < max (components v) (components w)"
    then have "components v \<le> k" "components w \<le> k" by simp_all
    then have "component Number v k = Finite 0" "component Number w k = Finite 0"
      by (simp_all add: component_beyond)
    with k(1) show False by simp
  qed
  with k show "versionGreater Number v w" unfolding versionGreater_def by blast
next
  assume "versionGreater Number v w"
  then show "lexGreater (component Number v) (component Number w)"
    unfolding versionGreater_def lexGreater_def by blast
qed

lemma equal_versionEqual:
  "component Number v = component Number w \<longleftrightarrow> versionEqual Number v w"
proof
  assume "component Number v = component Number w"
  then show "versionEqual Number v w" unfolding versionEqual_def by simp
next
  assume e: "versionEqual Number v w"
  show "component Number v = component Number w"
  proof (rule ext)
    fix i
    show "component Number v i = component Number w i"
    proof (cases "i < max (components v) (components w)")
      case True
      with e show ?thesis unfolding versionEqual_def by simp
    next
      case False
      then have "components v \<le> i" "components w \<le> i" by simp_all
      then show ?thesis by (simp add: component_beyond)
    qed
  qed
qed

lemma ranksBefore_listedBefore:
  "ranksBefore Number a b \<longleftrightarrow> listedBefore Number (toConnection a) (toConnection b)"
  by (simp add: ranksBefore_def listedBefore_def toConnection_def Let_def versionOf_def
      nameLength_def lexGreater_versionGreater equal_versionEqual)

text \<open>
  C9. For every reply to \<open>get_instances\<close> and every \<open>Number\<close>, the list of connections
  the page holds after the reply is in descending order of version, the versions
  compared component by component as numbers with a missing component counting as
  zero, and connections of equal version come in descending order of the length of
  their server's name. The list holds exactly the connections of the reply.
\<close>

theorem connections_sorted_by_version_then_name_length:
  "sorted_wrt (listedBefore Number) (connections (pollResponse Number response st)) \<and>
   mset (connections (pollResponse Number response st)) = mset (map toConnection response)"
proof
  have "ranksBefore Number = (\<lambda>a b. listedBefore Number (toConnection a) (toConnection b))"
    by (intro ext) (rule ranksBefore_listedBefore)
  then have "sorted_wrt (\<lambda>a b. listedBefore Number (toConnection a) (toConnection b))
          (arraySort (compareFn Number) response)"
    using arraySort_sorted [of Number response] by simp
  then show "sorted_wrt (listedBefore Number) (connections (pollResponse Number response st))"
    by (simp add: pollResponse_def renderConnections_def sorted_wrt_map)
next
  show "mset (connections (pollResponse Number response st)) = mset (map toConnection response)"
    by (simp add: pollResponse_def renderConnections_def arraySort_mset)
qed

theorem connections_sorted_witness:
  "connections (pollResponse decimalNumber polled stevePage) =
     [\<lparr>conn_id = ''c'', conn_server = ''Hub'', conn_version = ''1.21.4'', connected = False\<rparr>,
      \<lparr>conn_id = ''d'', conn_server = ''Survival'', conn_version = ''1.21'', connected = True\<rparr>,
      \<lparr>conn_id = ''b'', conn_server = ''Lobby'', conn_version = ''1.21'', connected = True\<rparr>,
      \<lparr>conn_id = ''a'', conn_server = ''Hub'', conn_version = ''1.8.9'', connected = False\<rparr>] \<and>
   sorted_wrt (listedBefore decimalNumber)
     [\<lparr>conn_id = ''c'', conn_server = ''Hub'', conn_version = ''1.21.4'', connected = False\<rparr>,
      \<lparr>conn_id = ''d'', conn_server = ''Survival'', conn_version = ''1.21'', connected = True\<rparr>,
      \<lparr>conn_id = ''b'', conn_server = ''Lobby'', conn_version = ''1.21'', connected = True\<rparr>,
      \<lparr>conn_id = ''a'', conn_server = ''Hub'', conn_version = ''1.8.9'', connected = False\<rparr>]"
proof -
  have r: "connections (pollResponse decimalNumber polled stevePage) =
     [\<lparr>conn_id = ''c'', conn_server = ''Hub'', conn_version = ''1.21.4'', connected = False\<rparr>,
      \<lparr>conn_id = ''d'', conn_server = ''Survival'', conn_version = ''1.21'', connected = True\<rparr>,
      \<lparr>conn_id = ''b'', conn_server = ''Lobby'', conn_version = ''1.21'', connected = True\<rparr>,
      \<lparr>conn_id = ''a'', conn_server = ''Hub'', conn_version = ''1.8.9'', connected = False\<rparr>]"
    by (simp add: pollResponse_def renderConnections_def arraySort_def polled_def
        polledEntry_def compareFn_def versionLoop.simps decimalNumber_def toConnection_def
        at_def orZero_def Let_def less_number_def)
  have "sorted_wrt (listedBefore decimalNumber)
      (connections (pollResponse decimalNumber polled stevePage))"
    using connections_sorted_by_version_then_name_length [of decimalNumber polled stevePage]
    by (rule conjunct1)
  then have s: "sorted_wrt (listedBefore decimalNumber)
     [\<lparr>conn_id = ''c'', conn_server = ''Hub'', conn_version = ''1.21.4'', connected = False\<rparr>,
      \<lparr>conn_id = ''d'', conn_server = ''Survival'', conn_version = ''1.21'', connected = True\<rparr>,
      \<lparr>conn_id = ''b'', conn_server = ''Lobby'', conn_version = ''1.21'', connected = True\<rparr>,
      \<lparr>conn_id = ''a'', conn_server = ''Hub'', conn_version = ''1.8.9'', connected = False\<rparr>]"
    unfolding r .
  from r s show ?thesis by (rule conjI)
qed

section \<open>Properties of the commands\<close>

lemma find_None_list_ex: "find P xs = None \<longleftrightarrow> \<not> list_ex P xs"
  by (auto simp: find_None_iff list_ex_iff)

text \<open>
  The guard of the \<open>Create\<close> button: when the list of connections already shows the
  selected server and version, no command is invoked and only the error label
  changes.
\<close>

lemma createClick_duplicate:
  assumes "client st = Some c"
    and "list_ex (\<lambda>conn. conn_server conn = selectedServer st \<and>
                         conn_version conn = selectedVersion st) (connections st)"
    and "truthy (selectedVersion st)" "truthy (selectedServer st)"
  shows "createClick be st =
           ([], st\<lparr>errLabel := Some ''Connection with this server and version already exists''\<rparr>)"
proof -
  from assms(2) obtain x where
    "find (\<lambda>conn. conn_server conn = selectedServer st \<and>
                  conn_version conn = selectedVersion st) (connections st) = Some x"
    using find_None_list_ex by fastforce
  with assms(1,3,4) show ?thesis by (simp add: createClick_def)
qed

text \<open>
  C4, as the backend of the specification has it. \<open>addServer\<close> with a name that is
  already registered fails with \<open>DuplicateServerError\<close> and returns the store it was
  given: the same entries and the same document. In the interface, when \<open>add_server\<close>
  is rejected the page closes the dialog and adds no row to its list.
\<close>

theorem add_server_duplicate_changes_nothing:
  "(registered (entries store) (name entry) \<longrightarrow>
      addServer encode entry store = (Inl DuplicateServerError, store)) \<and>
   (reply_add_server be (input_name (serverInput st)) (input_ip (serverInput st))
        (input_port (serverInput st)) = Inl e \<longrightarrow>
      handleSubmit be st =
        ([add_server (input_name (serverInput st)) (input_ip (serverInput st))
            (input_port (serverInput st))],
         st\<lparr>showDialog := False\<rparr>))"
  by (simp add: addServer_def handleSubmit_def Let_def)

theorem add_server_duplicate_witness:
  "addServer namesDocument (hub\<lparr>ip := ''10.0.0.7''\<rparr>) hubStore = (Inl DuplicateServerError, hubStore) \<and>
   document hubStore = ''Hub;'' \<and>
   server_rows (snd (handleSubmit rejecting hubAgain)) = server_rows hubAgain"
proof -
  have r: "registered (entries hubStore) (name (hub\<lparr>ip := ''10.0.0.7''\<rparr>))"
    by (simp add: registered_def hubStore_def hub_def)
  have q: "reply_add_server rejecting (input_name (serverInput hubAgain))
      (input_ip (serverInput hubAgain)) (input_port (serverInput hubAgain))
        = Inl ''Server Hub already exists''"
    by (simp add: rejecting_def)
  note t = add_server_duplicate_changes_nothing
    [of hubStore "hub\<lparr>ip := ''10.0.0.7''\<rparr>" namesDocument rejecting hubAgain
      "''Server Hub already exists''"]
  from t r q show ?thesis by (simp add: hubStore_def namesDocument_def hub_def)
qed

text \<open>
  C7, as the backend of the specification has it. \<open>recallAuthentication\<close> returns a
  boolean, and when it is false, as it is for an expired token, the client is
  returned as it was, profile included. In the interface, a reply \<open>false\<close> is stored
  in \<open>allowed\<close> and nothing else but \<open>loading\<close> changes: the client shown is the same,
  and the page of a known client shows the failure panel, whose button opens the
  authentication dialog.
\<close>

theorem recall_false_leaves_profile:
  "(fst (recallAuthentication now cached c) = False \<longrightarrow>
      snd (recallAuthentication now cached c) = c) \<and>
   (identityKind c = Microsoft \<and> cached = Some e \<and> validUntil e \<le> now \<longrightarrow>
      recallAuthentication now cached c = (False, c)) \<and>
   (reply_recall_authentication be i = Inr False \<longrightarrow>
      recallEffect be i st =
        (recall_authentication i # pollStatus st,
         st\<lparr>allowed := \<lparr>allowed_value = False, allowed_error = None\<rparr>, loading := False\<rparr>) \<and>
      client (snd (recallEffect be i st)) = client st \<and>
      (client st \<noteq> None \<longrightarrow>
         render (snd (recallEffect be i st)) = FailurePanel \<and>
         showAuth (reauthenticateClick (snd (recallEffect be i st)))))"
  by (auto simp: recallAuthentication_def recallEffect_def render_def reauthenticateClick_def
      split: identityKind.splits option.splits)

theorem recall_false_witness:
  "recallAuthentication 90000 (Some steveEntry) steveRegistered = (False, steveRegistered) \<and>
   client (snd (recallEffect coldBackend ''client-1'' stevePage)) = Some steveClient \<and>
   render (snd (recallEffect coldBackend ''client-1'' stevePage)) = FailurePanel \<and>
   showAuth (reauthenticateClick (snd (recallEffect coldBackend ''client-1'' stevePage)))"
proof -
  have a: "identityKind steveRegistered = Microsoft \<and> Some steveEntry = Some steveEntry \<and>
      validUntil steveEntry \<le> 90000"
    by (simp add: steveRegistered_def steveEntry_def)
  have b: "reply_recall_authentication coldBackend ''client-1'' = Inr False"
    by (simp add: coldBackend_def)
  have c: "client stevePage = Some steveClient"
    by (simp add: stevePage_def initialManagerState_def)
  note t = recall_false_leaves_profile
    [of 90000 "Some steveEntry" steveRegistered steveEntry coldBackend "''client-1''" stevePage]
  have c': "client stevePage \<noteq> None" using c by simp
  from t a have p1: "recallAuthentication 90000 (Some steveEntry) steveRegistered
      = (False, steveRegistered)"
    by blast
  from t b c' have p2: "client (snd (recallEffect coldBackend ''client-1'' stevePage))
      = client stevePage \<and>
    render (snd (recallEffect coldBackend ''client-1'' stevePage)) = FailurePanel \<and>
    showAuth (reauthenticateClick (snd (recallEffect coldBackend ''client-1'' stevePage)))"
    by blast
  from p1 p2 c show ?thesis by simp
qed

end
